theory Spec2Isabelle
  imports Complex_Main "HOL-Library.AList" "HOL-Library.Multiset"
begin

section \<open>Fish pond water quality monitor: the evaluation core of app.py\<close>

text \<open>
  The Evaluation page of \<^verbatim>\<open>app.py\<close> classifies each entered water parameter against a
  table of safe ranges, counts the resulting labels and gives a final verdict.

  Numbers: the readings are Python floats produced by \<^verbatim>\<open>st.number_input\<close> (finite, inside
  the widget's bounds) and the table mixes Python ints and floats. Python compares them by
  their exact numeric value, so a number is modelled as a \<^typ>\<open>real\<close> and \<open>\<le>\<close>, \<open><\<close>, \<open>>\<close>
  are the order of the reals. A decimal literal stands for the decimal it is written as;
  the binary rounding of a literal and the value NaN are outside the model.

  Dictionaries: a Python \<^verbatim>\<open>dict\<close> keeps insertion order and has each key once. It is
  modelled as an association list; \<^const>\<open>AList.update\<close> is the assignment
  \<^verbatim>\<open>d[k] = v\<close> (overwrite in place, or append a new key at the end).
\<close>

subsection \<open>Data model\<close>

text \<open>The five labels \<^verbatim>\<open>"Safe"\<close>, \<^verbatim>\<open>"Low"\<close>, \<^verbatim>\<open>"High"\<close>, \<^verbatim>\<open>"Risky"\<close>, \<^verbatim>\<open>"Unsafe"\<close>
  that \<^verbatim>\<open>check_status\<close> returns.\<close>

datatype status = Safe | Low | High | Risky | Unsafe

text \<open>The only exception of the core: \<^verbatim>\<open>safe_ranges[param]\<close> on a missing key raises
  \<^verbatim>\<open>KeyError(param)\<close>.\<close>

datatype error = KeyError string

type_synonym range_table = "string \<rightharpoonup> real \<times> real"

text \<open>Lines 138-143: the safe range definitions.\<close>

definition safe_ranges :: range_table where
  "safe_ranges = map_of
     [(''Temperature'', (25, 30)),
      (''Dissolved Oxygen'', (5, 10)),
      (''pH'', (6.5, 8.5)),
      (''Ammonia'', (0, 0.05))]"

subsection \<open>The classifier\<close>

text \<open>Lines 146-160: \<^verbatim>\<open>check_status\<close>. The Python function reads the enclosing variable
  \<^verbatim>\<open>safe_ranges\<close>; \<open>check_status_with\<close> takes that table as an argument and
  \<open>check_status\<close> is the function at the table of the program. The unpacking
  \<^verbatim>\<open>low, high = safe_ranges[param]\<close> comes first, so a missing key raises for every
  parameter name, \<^verbatim>\<open>"Ammonia"\<close> included.\<close>

definition check_status_with :: "range_table \<Rightarrow> string \<Rightarrow> real \<Rightarrow> error + status" where
  "check_status_with ranges param val =
     (case ranges param of
        None \<Rightarrow> Inl (KeyError param)
      | Some (low, high) \<Rightarrow>
          if param = ''Ammonia'' then
            (if val \<le> high then Inr Safe
             else if val \<le> 0.1 then Inr Risky
             else Inr Unsafe)
          else if val < low then Inr Low
          else if val > high then Inr High
          else Inr Safe)"

definition check_status :: "string \<Rightarrow> real \<Rightarrow> error + status" where
  "check_status = check_status_with safe_ranges"

subsection \<open>The evaluation\<close>

text \<open>Line 162: the dict comprehension
  \<^verbatim>\<open>status = {param: check_status(param, val) for param, val in data.items()}\<close>.
  It walks the items of \<^verbatim>\<open>data\<close> in order and assigns into the dict built so far; the
  first call that raises ends the comprehension and no dict is bound.\<close>

fun status_comprehension ::
  "(string \<times> real) list \<Rightarrow> (string \<times> status) list \<Rightarrow> error + (string \<times> status) list" where
  "status_comprehension [] acc = Inr acc"
| "status_comprehension ((param, val) # items) acc =
     (case check_status param val of
        Inl e \<Rightarrow> Inl e
      | Inr s \<Rightarrow> status_comprehension items (AList.update param s acc))"

text \<open>Line 176: \<^verbatim>\<open>df_eval["Status"].value_counts().reset_index()\<close>. pandas counts each
  distinct value of the column and lists the values by descending count; a value that does
  not occur has no row. \<open>tally\<close> is the counting pass (one row per distinct value, in order
  of first appearance). pandas does not document the order among equal counts; the model
  keeps the order of first appearance there, and no theorem below depends on it.\<close>

fun tally :: "'a list \<Rightarrow> ('a \<times> nat) list \<Rightarrow> ('a \<times> nat) list" where
  "tally [] acc = acc"
| "tally (x # xs) acc =
     tally xs (AList.update x (case map_of acc x of None \<Rightarrow> 1 | Some c \<Rightarrow> Suc c) acc)"

definition value_counts :: "'a list \<Rightarrow> ('a \<times> nat) list" where
  "value_counts xs = sort_key (\<lambda>(x, c). - int c) (tally xs [])"

text \<open>What the page computes from a reading: the dict \<^verbatim>\<open>status\<close> (line 162), the table
  \<^verbatim>\<open>status_counts\<close> (lines 176-177) and the condition of the final verdict (line 236).\<close>

record evaluation =
  status :: "(string \<times> status) list"
  status_counts :: "(status \<times> nat) list"
  verdict :: bool

definition evaluate :: "(string \<times> real) list \<Rightarrow> error + evaluation" where
  "evaluate data =
     (case status_comprehension data [] of
        Inl e \<Rightarrow> Inl e
      | Inr st \<Rightarrow>
          Inr \<lparr>status = st,
               status_counts = value_counts (map snd st),
               verdict = list_all (\<lambda>s. s = Safe) (map snd st)\<rparr>)"

section \<open>Classification\<close>

lemma safe_ranges_lookup:
  "safe_ranges ''Temperature'' = Some (25, 30)"
  "safe_ranges ''Dissolved Oxygen'' = Some (5, 10)"
  "safe_ranges ''pH'' = Some (6.5, 8.5)"
  "safe_ranges ''Ammonia'' = Some (0, 0.05)"
  by (simp_all add: safe_ranges_def)

lemma check_status_Ammonia:
  "check_status ''Ammonia'' v =
     (if v \<le> 0.05 then Inr Safe else if v \<le> 0.1 then Inr Risky else Inr Unsafe)"
  by (simp add: check_status_def check_status_with_def safe_ranges_lookup)

lemma check_status_two_sided:
  assumes "safe_ranges p = Some (low, high)" and "p \<noteq> ''Ammonia''"
  shows "check_status p v =
     (if v < low then Inr Low else if v > high then Inr High else Inr Safe)"
  using assms by (simp add: check_status_def check_status_with_def)

text \<open>
  C1. For Ammonia the classifier returns Safe for every value at most 0.05, Risky for
  every value above 0.05 and at most 0.1, and Unsafe for every value above 0.1. The second
  threshold 0.1 is a constant of the classifier: whatever pair \<open>(low, high)\<close> a range table
  gives for Ammonia, a value above \<open>high\<close> is Risky up to 0.1 and Unsafe beyond it.
\<close>

theorem C1_ammonia_three_tiers:
  "(v \<le> 0.05 \<longrightarrow> check_status ''Ammonia'' v = Inr Safe) \<and>
   (0.05 < v \<and> v \<le> 0.1 \<longrightarrow> check_status ''Ammonia'' v = Inr Risky) \<and>
   (v > 0.1 \<longrightarrow> check_status ''Ammonia'' v = Inr Unsafe) \<and>
   (ranges ''Ammonia'' = Some (low, high) \<longrightarrow>
      check_status_with ranges ''Ammonia'' v =
        (if v \<le> high then Inr Safe else if v \<le> 0.1 then Inr Risky else Inr Unsafe))"
  by (simp add: check_status_Ammonia check_status_with_def)

theorem C1_ammonia_three_tiers_witness:
  "check_status ''Ammonia'' 0.05 = Inr Safe \<and>
   check_status ''Ammonia'' 0.0500001 = Inr Risky \<and>
   check_status ''Ammonia'' 0.1 = Inr Risky \<and>
   check_status ''Ammonia'' 0.1000001 = Inr Unsafe \<and>
   check_status_with (safe_ranges(''Ammonia'' \<mapsto> (0, 0.02))) ''Ammonia'' 0.07 = Inr Risky \<and>
   check_status_with (safe_ranges(''Ammonia'' \<mapsto> (0, 0.02))) ''Ammonia'' 0.2 = Inr Unsafe"
  using C1_ammonia_three_tiers [of "0.05" safe_ranges 0 "0.05"]
    C1_ammonia_three_tiers [of "0.0500001" safe_ranges 0 "0.05"]
    C1_ammonia_three_tiers [of "0.1" safe_ranges 0 "0.05"]
    C1_ammonia_three_tiers [of "0.1000001" safe_ranges 0 "0.05"]
    C1_ammonia_three_tiers [of "0.07" "safe_ranges(''Ammonia'' \<mapsto> (0, 0.02))" 0 "0.02"]
    C1_ammonia_three_tiers [of "0.2" "safe_ranges(''Ammonia'' \<mapsto> (0, 0.02))" 0 "0.02"]
  by simp

text \<open>
  C2. For Temperature, Dissolved Oxygen and pH the configured bounds are (25, 30),
  (5, 10) and (6.5, 8.5); a value below the lower bound is Low, a value above the upper
  bound is High, and a value between the bounds is Safe, the two bounds included.
\<close>

theorem C2_two_sided_inclusive:
  assumes "(p, low, high) \<in>
    {(''Temperature'', 25, 30), (''Dissolved Oxygen'', 5, 10), (''pH'', 6.5, 8.5)}"
  shows "safe_ranges p = Some (low, high) \<and>
    (v < low \<longrightarrow> check_status p v = Inr Low) \<and>
    (v > high \<longrightarrow> check_status p v = Inr High) \<and>
    (low \<le> v \<and> v \<le> high \<longrightarrow> check_status p v = Inr Safe) \<and>
    check_status p low = Inr Safe \<and> check_status p high = Inr Safe"
proof -
  have r: "safe_ranges p = Some (low, high)" and n: "p \<noteq> ''Ammonia''" and o: "low \<le> high"
    using assms by (auto simp: safe_ranges_lookup)
  show ?thesis
    using o by (simp add: r check_status_two_sided [OF r n])
qed

theorem C2_two_sided_inclusive_witness:
  "check_status ''Temperature'' 24.9 = Inr Low \<and>
   check_status ''Temperature'' 25 = Inr Safe \<and>
   check_status ''Temperature'' 30 = Inr Safe \<and>
   check_status ''Temperature'' 30.1 = Inr High \<and>
   check_status ''Dissolved Oxygen'' 4.9 = Inr Low \<and>
   check_status ''Dissolved Oxygen'' 5 = Inr Safe \<and>
   check_status ''Dissolved Oxygen'' 7 = Inr Safe \<and>
   check_status ''Dissolved Oxygen'' 10 = Inr Safe \<and>
   check_status ''Dissolved Oxygen'' 10.1 = Inr High \<and>
   check_status ''pH'' 6.4 = Inr Low \<and>
   check_status ''pH'' 6.5 = Inr Safe \<and>
   check_status ''pH'' 8.5 = Inr Safe \<and>
   check_status ''pH'' 8.6 = Inr High"
  using C2_two_sided_inclusive [of "''Temperature''" 25 30 "24.9"]
    C2_two_sided_inclusive [of "''Temperature''" 25 30 "30.1"]
    C2_two_sided_inclusive [of "''Dissolved Oxygen''" 5 10 "4.9"]
    C2_two_sided_inclusive [of "''Dissolved Oxygen''" 5 10 7]
    C2_two_sided_inclusive [of "''Dissolved Oxygen''" 5 10 "10.1"]
    C2_two_sided_inclusive [of "''pH''" "6.5" "8.5" "6.4"]
    C2_two_sided_inclusive [of "''pH''" "6.5" "8.5" "8.6"]
  by simp

text \<open>
  C9. The labels are split by parameter. For Ammonia the classifier returns Safe, Risky
  or Unsafe and never Low or High; every value at most 0.05, a negative one included, is
  Safe. For Temperature, Dissolved Oxygen and pH it returns Safe, Low or High and never
  Risky or Unsafe.
\<close>

theorem C9_label_partition:
  "check_status ''Ammonia'' v \<in> {Inr Safe, Inr Risky, Inr Unsafe} \<and>
   check_status ''Ammonia'' v \<noteq> Inr Low \<and> check_status ''Ammonia'' v \<noteq> Inr High \<and>
   (v \<le> 0.05 \<longrightarrow> check_status ''Ammonia'' v = Inr Safe) \<and>
   (p \<in> {''Temperature'', ''Dissolved Oxygen'', ''pH''} \<longrightarrow>
      check_status p w \<in> {Inr Safe, Inr Low, Inr High} \<and>
      check_status p w \<noteq> Inr Risky \<and> check_status p w \<noteq> Inr Unsafe)"
proof -
  have "check_status p w \<in> {Inr Safe, Inr Low, Inr High}"
    if "p \<in> {''Temperature'', ''Dissolved Oxygen'', ''pH''}"
  proof -
    from that consider "p = ''Temperature''" | "p = ''Dissolved Oxygen''" | "p = ''pH''"
      by auto
    then show ?thesis
    proof cases
      case 1
      show ?thesis
        unfolding 1 by (simp add: check_status_two_sided [OF safe_ranges_lookup(1)])
    next
      case 2
      show ?thesis
        unfolding 2 by (simp add: check_status_two_sided [OF safe_ranges_lookup(2)])
    next
      case 3
      show ?thesis
        unfolding 3 by (simp add: check_status_two_sided [OF safe_ranges_lookup(3)])
    qed
  qed
  then show ?thesis
    by (auto simp: check_status_Ammonia)
qed

theorem C9_label_partition_witness:
  "check_status ''Ammonia'' (-1) = Inr Safe \<and>
   check_status ''pH'' 100 \<in> {Inr Safe, Inr Low, Inr High} \<and>
   check_status ''pH'' 100 \<noteq> Inr Risky \<and> check_status ''pH'' 100 \<noteq> Inr Unsafe"
  using C9_label_partition [of "-1" "''pH''" 100] by simp

section \<open>The status dict\<close>

lemma check_status_Inl:
  "check_status p v = Inl e \<longleftrightarrow> safe_ranges p = None \<and> e = KeyError p"
  by (auto simp: check_status_def check_status_with_def split: option.splits)

lemma check_status_Inr:
  "safe_ranges p \<noteq> None \<Longrightarrow> \<exists>s. check_status p v = Inr s"
  by (cases "check_status p v") (auto simp: check_status_Inl)

lemma update_fresh: "k \<notin> fst ` set al \<Longrightarrow> AList.update k v al = al @ [(k, v)]"
  by (induction al) auto

lemma status_comprehension_raises:
  "find (\<lambda>(k, _). safe_ranges k = None) items = Some (q, w) \<Longrightarrow>
   status_comprehension items acc = Inl (KeyError q)"
proof (induction items arbitrary: acc)
  case Nil
  then show ?case by simp
next
  case (Cons item items)
  obtain p v where item: "item = (p, v)" by (cases item)
  show ?case
  proof (cases "safe_ranges p")
    case None
    with Cons.prems item have "q = p" by simp
    moreover from None have "check_status p v = Inl (KeyError p)"
      by (simp add: check_status_Inl)
    ultimately show ?thesis by (simp add: item)
  next
    case (Some r)
    then obtain s where s: "check_status p v = Inr s"
      using check_status_Inr [of p v] by auto
    from Some Cons.prems item
    have "find (\<lambda>(k, _). safe_ranges k = None) items = Some (q, w)" by simp
    from Cons.IH [OF this] show ?thesis by (simp add: item s)
  qed
qed

lemma status_comprehension_returns:
  "find (\<lambda>(k, _). safe_ranges k = None) items = None \<Longrightarrow>
   \<exists>st. status_comprehension items acc = Inr st"
proof (induction items arbitrary: acc)
  case Nil
  then show ?case by simp
next
  case (Cons item items)
  obtain p v where item: "item = (p, v)" by (cases item)
  from Cons.prems item have c: "safe_ranges p \<noteq> None"
    and rest: "find (\<lambda>(k, _). safe_ranges k = None) items = None"
    by (auto split: if_splits)
  from c obtain s where s: "check_status p v = Inr s"
    using check_status_Inr [of p v] by auto
  from Cons.IH [OF rest] show ?case by (simp add: item s)
qed

lemma status_comprehension_keys:
  "status_comprehension items acc = Inr st \<Longrightarrow>
   fst ` set st = fst ` set acc \<union> fst ` set items"
proof (induction items arbitrary: acc)
  case Nil
  then show ?case by simp
next
  case (Cons item items)
  obtain p v where item: "item = (p, v)" by (cases item)
  from Cons.prems item obtain s where s: "check_status p v = Inr s"
    and rest: "status_comprehension items (AList.update p s acc) = Inr st"
    by (auto split: sum.splits)
  from Cons.IH [OF rest] show ?case
    by (auto simp: item dom_update)
qed

lemma status_comprehension_distinct:
  "status_comprehension items acc = Inr st \<Longrightarrow> distinct (map fst acc) \<Longrightarrow>
   distinct (map fst st)"
proof (induction items arbitrary: acc)
  case Nil
  then show ?case by simp
next
  case (Cons item items)
  obtain p v where item: "item = (p, v)" by (cases item)
  from Cons.prems item obtain s where s: "check_status p v = Inr s"
    and rest: "status_comprehension items (AList.update p s acc) = Inr st"
    by (auto split: sum.splits)
  from Cons.IH [OF rest] Cons.prems(2) show ?case
    by (simp add: distinct_update)
qed

lemma status_comprehension_map:
  "status_comprehension items acc = Inr st \<Longrightarrow> distinct (map fst items) \<Longrightarrow>
   fst ` set acc \<inter> fst ` set items = {} \<Longrightarrow>
   st = acc @ map (\<lambda>(p, v). (p, projr (check_status p v))) items"
proof (induction items arbitrary: acc)
  case Nil
  then show ?case by simp
next
  case (Cons item items)
  obtain p v where item: "item = (p, v)" by (cases item)
  from Cons.prems(1) item obtain s where s: "check_status p v = Inr s"
    and rest: "status_comprehension items (AList.update p s acc) = Inr st"
    by (auto split: sum.splits)
  from Cons.prems(3) item have fresh: "p \<notin> fst ` set acc" by auto
  have d: "distinct (map fst items)" using Cons.prems(2) by simp
  have "fst ` set (AList.update p s acc) \<inter> fst ` set items = {}"
    using Cons.prems(2,3) item by (auto simp: dom_update)
  from Cons.IH [OF rest d this] show ?case
    by (simp add: item s update_fresh [OF fresh])
qed

lemma find_None_iff_all:
  "find (\<lambda>(k, _). safe_ranges k = None) items = None \<longleftrightarrow>
   (\<forall>(p, v) \<in> set items. safe_ranges p \<noteq> None)"
  by (auto simp: find_None_iff)

section \<open>The table of counts\<close>

lemma map_of_tally:
  "map_of (tally xs acc) x =
     (if x \<in> set xs \<or> map_of acc x \<noteq> None
      then Some (count_list xs x + (case map_of acc x of None \<Rightarrow> 0 | Some c \<Rightarrow> c))
      else None)"
  by (induction xs arbitrary: acc) (auto simp: update_conv' split: option.splits)

lemma distinct_tally:
  "distinct (map fst acc) \<Longrightarrow> distinct (map fst (tally xs acc))"
  by (induction xs arbitrary: acc) (simp_all add: distinct_update)

lemma distinct_value_counts: "distinct (map fst (value_counts xs))"
proof -
  have "mset (map fst (value_counts xs)) = mset (map fst (tally xs []))"
    by (simp add: value_counts_def)
  then have "distinct (map fst (value_counts xs)) = distinct (map fst (tally xs []))"
    by (rule mset_eq_imp_distinct_iff)
  then show ?thesis by (simp add: distinct_tally)
qed

lemma map_of_value_counts:
  "map_of (value_counts xs) x = (if x \<in> set xs then Some (count_list xs x) else None)"
proof -
  have "set (value_counts xs) = set (tally xs [])"
    by (simp add: value_counts_def)
  then have "map_of (value_counts xs) = map_of (tally xs [])"
    using map_of_inject_set [of "value_counts xs" "tally xs []"]
    by (simp add: distinct_value_counts distinct_tally)
  then show ?thesis by (simp add: map_of_tally)
qed

lemma value_counts_mset:
  assumes "mset xs = mset ys"
  shows "map_of (value_counts xs) = map_of (value_counts ys)"
    and "mset (value_counts xs) = mset (value_counts ys)"
proof -
  have s: "set xs = set ys" using assms by (rule mset_eq_setD)
  have c: "count_list xs x = count_list ys x" for x
    using assms by (metis count_mset)
  show m: "map_of (value_counts xs) = map_of (value_counts ys)"
    by (rule ext) (simp add: map_of_value_counts s c)
  then have "set (value_counts xs) = set (value_counts ys)"
    using map_of_inject_set [of "value_counts xs" "value_counts ys"]
    by (simp add: distinct_value_counts)
  moreover have "distinct (value_counts xs)" "distinct (value_counts ys)"
    using distinct_value_counts distinct_map by blast+
  ultimately show "mset (value_counts xs) = mset (value_counts ys)"
    using set_eq_iff_mset_eq_distinct by blast
qed

section \<open>The evaluation of a reading\<close>

lemma evaluate_InrD:
  assumes "evaluate data = Inr r"
  shows "status_comprehension data [] = Inr (status r)"
    and "status_counts r = value_counts (map snd (status r))"
    and "verdict r = list_all (\<lambda>s. s = Safe) (map snd (status r))"
  using assms by (auto simp: evaluate_def split: sum.splits)

lemma evaluate_Inr_iff:
  "(\<exists>r. evaluate data = Inr r) \<longleftrightarrow> (\<forall>(p, v) \<in> set data. safe_ranges p \<noteq> None)"
proof (cases "find (\<lambda>(k, _). safe_ranges k = None) data")
  case None
  from status_comprehension_returns [OF None, of "[]"]
  have "\<exists>r. evaluate data = Inr r" by (auto simp: evaluate_def)
  moreover from None have "\<forall>(p, v) \<in> set data. safe_ranges p \<noteq> None"
    by (simp only: find_None_iff_all)
  ultimately show ?thesis by blast
next
  case (Some a)
  obtain q w where a: "a = (q, w)" by (cases a)
  from Some a have "evaluate data = Inl (KeyError q)"
    by (simp add: evaluate_def status_comprehension_raises)
  moreover from Some have "\<not> (\<forall>(p, v) \<in> set data. safe_ranges p \<noteq> None)"
    by (simp only: find_None_iff_all [symmetric]) simp
  ultimately show ?thesis by simp
qed

lemma evaluate_status_map:
  assumes "evaluate data = Inr r" and "distinct (map fst data)"
  shows "status r = map (\<lambda>(p, v). (p, projr (check_status p v))) data"
  using status_comprehension_map [OF evaluate_InrD(1) [OF assms(1)] assms(2)] by simp

lemma evaluate_status_distinct:
  "evaluate data = Inr r \<Longrightarrow> distinct (map fst (status r))"
  using status_comprehension_distinct [OF evaluate_InrD(1), of data r] by simp

lemma configured_projr:
  "safe_ranges p \<noteq> None \<Longrightarrow> projr (check_status p v) = s \<longleftrightarrow> check_status p v = Inr s"
  using check_status_Inr [of p v] by auto

text \<open>
  C3. When the evaluation of a reading succeeds, its verdict is true exactly when every
  status in the status dict is Safe; a single status other than Safe makes it false. For a
  reading as a dict (each key once) this is: every entry of the reading classifies as Safe.
\<close>

theorem C3_verdict_iff_all_safe:
  assumes "evaluate data = Inr r"
  shows "(verdict r \<longleftrightarrow> (\<forall>p s. map_of (status r) p = Some s \<longrightarrow> s = Safe)) \<and>
    (distinct (map fst data) \<longrightarrow>
       (verdict r \<longleftrightarrow> (\<forall>(p, v) \<in> set data. check_status p v = Inr Safe)))"
proof (intro conjI impI)
  have v: "verdict r \<longleftrightarrow> (\<forall>(p, s) \<in> set (status r). s = Safe)"
    by (auto simp: evaluate_InrD(3) [OF assms] list_all_iff)
  show "verdict r \<longleftrightarrow> (\<forall>p s. map_of (status r) p = Some s \<longrightarrow> s = Safe)"
    unfolding v map_of_eq_Some_iff [OF evaluate_status_distinct [OF assms]] by auto
  assume d: "distinct (map fst data)"
  have c: "\<forall>(p, v) \<in> set data. safe_ranges p \<noteq> None"
    using assms evaluate_Inr_iff [of data] by blast
  have "verdict r \<longleftrightarrow> (\<forall>(p, v) \<in> set data. projr (check_status p v) = Safe)"
    unfolding v evaluate_status_map [OF assms d] by auto
  also have "\<dots> \<longleftrightarrow> (\<forall>(p, v) \<in> set data. check_status p v = Inr Safe)"
  proof -
    have "projr (check_status p v) = Safe \<longleftrightarrow> check_status p v = Inr Safe"
      if "(p, v) \<in> set data" for p v
    proof -
      from c that have "safe_ranges p \<noteq> None" by blast
      then show ?thesis by (rule configured_projr)
    qed
    then show ?thesis by fastforce
  qed
  finally show "verdict r \<longleftrightarrow> (\<forall>(p, v) \<in> set data. check_status p v = Inr Safe)" .
qed

theorem C3_verdict_iff_all_safe_witness:
  "evaluate [(''Temperature'', 27), (''Dissolved Oxygen'', 7), (''pH'', 7.2), (''Ammonia'', 0.02)] =
     Inr \<lparr>status = [(''Temperature'', Safe), (''Dissolved Oxygen'', Safe), (''pH'', Safe),
                    (''Ammonia'', Safe)],
          status_counts = [(Safe, 4)], verdict = True\<rparr> \<and>
   (\<forall>p s. map_of [(''Temperature'', Safe), (''Dissolved Oxygen'', Safe), (''pH'', Safe),
                    (''Ammonia'', Safe)] p = Some s \<longrightarrow> s = Safe) = True \<and>
   evaluate [(''Temperature'', 20), (''Dissolved Oxygen'', 7), (''pH'', 7.2), (''Ammonia'', 0.02)] =
     Inr \<lparr>status = [(''Temperature'', Low), (''Dissolved Oxygen'', Safe), (''pH'', Safe),
                    (''Ammonia'', Safe)],
          status_counts = [(Safe, 3), (Low, 1)], verdict = False\<rparr> \<and>
   (\<forall>p s. map_of [(''Temperature'', Low), (''Dissolved Oxygen'', Safe), (''pH'', Safe),
                    (''Ammonia'', Safe)] p = Some s \<longrightarrow> s = Safe) = False"
proof -
  have e1: "evaluate [(''Temperature'', 27), (''Dissolved Oxygen'', 7), (''pH'', 7.2),
      (''Ammonia'', 0.02)] =
     Inr \<lparr>status = [(''Temperature'', Safe), (''Dissolved Oxygen'', Safe), (''pH'', Safe),
                    (''Ammonia'', Safe)],
          status_counts = [(Safe, 4)], verdict = True\<rparr>"
    by code_simp
  have e2: "evaluate [(''Temperature'', 20), (''Dissolved Oxygen'', 7), (''pH'', 7.2),
      (''Ammonia'', 0.02)] =
     Inr \<lparr>status = [(''Temperature'', Low), (''Dissolved Oxygen'', Safe), (''pH'', Safe),
                    (''Ammonia'', Safe)],
          status_counts = [(Safe, 3), (Low, 1)], verdict = False\<rparr>"
    by code_simp
  from C3_verdict_iff_all_safe [OF e1] C3_verdict_iff_all_safe [OF e2] e1 e2
  show ?thesis by simp
qed

text \<open>
  C4. When a reading has a parameter with no entry in the range table, the evaluation
  fails: it raises the \<^verbatim>\<open>KeyError\<close> of the first such parameter in the reading's
  order (the configuration error of the specification), and no status dict, counts or
  verdict are produced for the other parameters.
\<close>

theorem C4_unconfigured_raises:
  assumes "(p, v) \<in> set data" and "safe_ranges p = None"
  shows "\<exists>q w. find (\<lambda>(k, _). safe_ranges k = None) data = Some (q, w) \<and>
    evaluate data = Inl (KeyError q)"
proof -
  from assms have "find (\<lambda>(k, _). safe_ranges k = None) data \<noteq> None"
    by (auto simp: find_None_iff)
  then obtain q w where f: "find (\<lambda>(k, _). safe_ranges k = None) data = Some (q, w)"
    by auto
  then have "evaluate data = Inl (KeyError q)"
    by (simp add: evaluate_def status_comprehension_raises)
  with f show ?thesis by blast
qed

theorem C4_unconfigured_raises_witness:
  "(''Salinity'', 3) \<in> set [(''Temperature'', 27), (''Salinity'', 3), (''Ammonia'', 0.2)] \<and>
   safe_ranges ''Salinity'' = None \<and>
   evaluate [(''Temperature'', 27), (''Salinity'', 3), (''Ammonia'', 0.2)] =
     Inl (KeyError ''Salinity'')"
proof -
  have m: "(''Salinity'', 3) \<in> set [(''Temperature'', 27), (''Salinity'', 3), (''Ammonia'', 0.2)]"
    by simp
  have n: "safe_ranges ''Salinity'' = None"
    by (simp add: safe_ranges_def)
  have f: "find (\<lambda>(k, _). safe_ranges k = None)
      [(''Temperature'', 27::real), (''Salinity'', 3), (''Ammonia'', 0.2)] = Some (''Salinity'', 3)"
    by (simp add: safe_ranges_def)
  from C4_unconfigured_raises [OF m n] show ?thesis
    unfolding f using m n by simp
qed

text \<open>
  C5. When every parameter of the reading is configured, the evaluation succeeds and
  the keys of its status dict are exactly the parameters of the reading, each once; for a
  reading as a dict they are the reading's keys in the reading's order.
\<close>

theorem C5_one_status_per_parameter:
  assumes "\<forall>(p, v) \<in> set data. safe_ranges p \<noteq> None"
  shows "\<exists>r. evaluate data = Inr r \<and>
    dom (map_of (status r)) = fst ` set data \<and>
    distinct (map fst (status r)) \<and>
    (distinct (map fst data) \<longrightarrow> map fst (status r) = map fst data)"
proof -
  from assms obtain r where r: "evaluate data = Inr r"
    using evaluate_Inr_iff [of data] by blast
  have "dom (map_of (status r)) = fst ` set data"
    using status_comprehension_keys [OF evaluate_InrD(1) [OF r]]
    by (simp add: dom_map_of_conv_image_fst)
  moreover have "map fst (status r) = map fst data" if "distinct (map fst data)"
    by (simp add: evaluate_status_map [OF r that] case_prod_unfold comp_def)
  ultimately show ?thesis
    using r evaluate_status_distinct [OF r] by blast
qed

theorem C5_one_status_per_parameter_witness:
  "\<exists>r. evaluate [(''Temperature'', 20), (''Dissolved Oxygen'', 7), (''pH'', 7.2), (''Ammonia'', 0.2)]
      = Inr r \<and>
    dom (map_of (status r)) = {''Temperature'', ''Dissolved Oxygen'', ''pH'', ''Ammonia''} \<and>
    distinct (map fst (status r)) \<and>
    map fst (status r) = [''Temperature'', ''Dissolved Oxygen'', ''pH'', ''Ammonia'']"
proof -
  have c: "\<forall>(p, v) \<in> set [(''Temperature'', 20::real), (''Dissolved Oxygen'', 7), (''pH'', 7.2),
      (''Ammonia'', 0.2)]. safe_ranges p \<noteq> None"
    by (simp add: safe_ranges_lookup del: not_None_eq)
  from C5_one_status_per_parameter [OF c] show ?thesis
    by auto
qed

lemma evaluate_permuted:
  assumes r: "evaluate data = Inr r" and d: "distinct (map fst data)"
    and m: "mset data' = mset data"
  shows "\<exists>r'. evaluate data' = Inr r' \<and>
    map_of (status r') = map_of (status r) \<and> mset (status r') = mset (status r) \<and>
    map_of (status_counts r') = map_of (status_counts r) \<and>
    mset (status_counts r') = mset (status_counts r) \<and>
    verdict r' = verdict r"
proof -
  have s: "set data' = set data" using m by (rule mset_eq_setD)
  have "mset (map fst data') = mset (map fst data)" using m by simp
  then have d': "distinct (map fst data')"
    using d mset_eq_imp_distinct_iff by blast
  have "\<forall>(p, v) \<in> set data. safe_ranges p \<noteq> None"
    using r evaluate_Inr_iff [of data] by blast
  then obtain r' where r': "evaluate data' = Inr r'"
    using evaluate_Inr_iff [of data'] s by auto
  let ?f = "\<lambda>(p, v). (p, projr (check_status p v))"
  have st: "status r = map ?f data" and st': "status r' = map ?f data'"
    using evaluate_status_map [OF r d] evaluate_status_map [OF r' d'] by simp_all
  have ms: "mset (status r') = mset (status r)"
    unfolding st st' using m by simp
  then have "set (status r') = set (status r)" by (rule mset_eq_setD)
  then have mp: "map_of (status r') = map_of (status r)"
    using map_of_inject_set [OF evaluate_status_distinct [OF r'] evaluate_status_distinct [OF r]]
    by simp
  have mv: "mset (map snd (status r')) = mset (map snd (status r))"
    using ms by simp
  have "set (map snd (status r')) = set (map snd (status r))"
    using mv by (rule mset_eq_setD)
  then have v: "verdict r' = verdict r"
    unfolding evaluate_InrD(3) [OF r] evaluate_InrD(3) [OF r'] list_all_iff by simp
  show ?thesis
    using r' mp ms v value_counts_mset [OF mv]
    by (simp add: evaluate_InrD(2) [OF r] evaluate_InrD(2) [OF r'])
qed

text \<open>
  C6. The content of the result does not depend on the key order of the reading. For a
  reading as a dict (each key once) and any reordering of its items, both evaluations fail
  or both succeed; when they succeed, the status dicts are the same mapping with the same
  entries, the tables of counts are the same mapping with the same rows, and the verdicts
  agree. Only the order of entries and rows may differ.
\<close>

theorem C6_key_order_independent:
  assumes "distinct (map fst data)" and "mset data' = mset data"
  shows "isl (evaluate data') = isl (evaluate data) \<and>
    (\<forall>r. evaluate data = Inr r \<longrightarrow>
       (\<exists>r'. evaluate data' = Inr r' \<and>
          map_of (status r') = map_of (status r) \<and>
          mset (status r') = mset (status r) \<and>
          map_of (status_counts r') = map_of (status_counts r) \<and>
          mset (status_counts r') = mset (status_counts r) \<and>
          verdict r' = verdict r))"
proof -
  have s: "set data' = set data" using assms(2) by (rule mset_eq_setD)
  have "(\<exists>r. evaluate data' = Inr r) \<longleftrightarrow> (\<exists>r. evaluate data = Inr r)"
    unfolding evaluate_Inr_iff s ..
  then have "isl (evaluate data') = isl (evaluate data)"
    by (cases "evaluate data'"; cases "evaluate data") auto
  then show ?thesis
    using evaluate_permuted [OF _ assms] by blast
qed

theorem C6_key_order_independent_witness:
  "evaluate [(''Ammonia'', 0.2), (''pH'', 7.2), (''Temperature'', 20), (''Dissolved Oxygen'', 7)] =
     Inr \<lparr>status = [(''Ammonia'', Unsafe), (''pH'', Safe), (''Temperature'', Low),
                    (''Dissolved Oxygen'', Safe)],
          status_counts = [(Safe, 2), (Unsafe, 1), (Low, 1)], verdict = False\<rparr> \<and>
   (\<exists>r'. evaluate [(''Temperature'', 20), (''Dissolved Oxygen'', 7), (''pH'', 7.2),
                    (''Ammonia'', 0.2)] = Inr r' \<and>
      map_of (status r') = map_of [(''Ammonia'', Unsafe), (''pH'', Safe), (''Temperature'', Low),
                    (''Dissolved Oxygen'', Safe)] \<and>
      mset (status r') = mset [(''Ammonia'', Unsafe), (''pH'', Safe), (''Temperature'', Low),
                    (''Dissolved Oxygen'', Safe)] \<and>
      map_of (status_counts r') = map_of [(Safe, 2), (Unsafe, 1), (Low, 1)] \<and>
      mset (status_counts r') = mset [(Safe, 2), (Unsafe, 1), (Low, 1)] \<and>
      verdict r' = False)"
proof -
  have d: "distinct (map fst [(''Ammonia'', 0.2::real), (''pH'', 7.2), (''Temperature'', 20),
      (''Dissolved Oxygen'', 7)])"
    by simp
  have m: "mset [(''Temperature'', 20::real), (''Dissolved Oxygen'', 7), (''pH'', 7.2),
      (''Ammonia'', 0.2)] =
    mset [(''Ammonia'', 0.2), (''pH'', 7.2), (''Temperature'', 20), (''Dissolved Oxygen'', 7)]"
    by simp
  have e: "evaluate [(''Ammonia'', 0.2), (''pH'', 7.2), (''Temperature'', 20),
      (''Dissolved Oxygen'', 7)] =
     Inr \<lparr>status = [(''Ammonia'', Unsafe), (''pH'', Safe), (''Temperature'', Low),
                    (''Dissolved Oxygen'', Safe)],
          status_counts = [(Safe, 2), (Unsafe, 1), (Low, 1)], verdict = False\<rparr>"
    by code_simp
  from C6_key_order_independent [OF d m, THEN conjunct2, rule_format, OF e]
  have "\<exists>r'. evaluate [(''Temperature'', 20), (''Dissolved Oxygen'', 7), (''pH'', 7.2),
                    (''Ammonia'', 0.2)] = Inr r' \<and>
      map_of (status r') = map_of [(''Ammonia'', Unsafe), (''pH'', Safe), (''Temperature'', Low),
                    (''Dissolved Oxygen'', Safe)] \<and>
      mset (status r') = mset [(''Ammonia'', Unsafe), (''pH'', Safe), (''Temperature'', Low),
                    (''Dissolved Oxygen'', Safe)] \<and>
      map_of (status_counts r') = map_of [(Safe, 2), (Unsafe, 1), (Low, 1)] \<and>
      mset (status_counts r') = mset [(Safe, 2), (Unsafe, 1), (Low, 1)] \<and>
      verdict r' = False"
    by (simp only: evaluation.simps)
  with e show ?thesis by (rule conjI)
qed

text \<open>
  C7. When every parameter of the reading (a dict, each key once) is configured, the
  evaluation succeeds and its table of counts has one row per status that occurs, holding
  the number of parameters of the reading that classify as that status; a status that no
  parameter has gets no row.
\<close>

theorem C7_counts_per_status:
  assumes "\<forall>(p, v) \<in> set data. safe_ranges p \<noteq> None" and "distinct (map fst data)"
  shows "\<exists>r. evaluate data = Inr r \<and>
    distinct (map fst (status_counts r)) \<and>
    (\<forall>s. map_of (status_counts r) s =
       (let n = length (filter (\<lambda>(p, v). check_status p v = Inr s) data)
        in if n = 0 then None else Some n))"
proof -
  from assms(1) obtain r where r: "evaluate data = Inr r"
    using evaluate_Inr_iff [of data] by blast
  let ?f = "\<lambda>(p, v). (p, projr (check_status p v))"
  have st: "map snd (status r) = map (\<lambda>(p, v). projr (check_status p v)) data"
    by (simp add: evaluate_status_map [OF r assms(2)] case_prod_unfold comp_def)
  have n: "count_list (map snd (status r)) s =
      length (filter (\<lambda>(p, v). check_status p v = Inr s) data)" for s
  proof -
    have "filter (\<lambda>(p, v). s = projr (check_status p v)) data =
        filter (\<lambda>(p, v). check_status p v = Inr s) data"
    proof (rule filter_cong [OF refl])
      fix x assume x: "x \<in> set data"
      obtain p v where pv: "x = (p, v)" by (cases x)
      from assms(1) x pv have "safe_ranges p \<noteq> None" by blast
      from configured_projr [OF this, of v s] pv
      show "(case x of (p, v) \<Rightarrow> s = projr (check_status p v)) =
          (case x of (p, v) \<Rightarrow> check_status p v = Inr s)"
        by auto
    qed
    then show ?thesis
      by (simp add: st count_list_eq_length_filter filter_map comp_def case_prod_unfold)
  qed
  have "map_of (status_counts r) s =
       (let n = length (filter (\<lambda>(p, v). check_status p v = Inr s) data)
        in if n = 0 then None else Some n)" for s
    unfolding evaluate_InrD(2) [OF r] map_of_value_counts n [symmetric] Let_def
    by (simp add: count_list_0_iff)
  then show ?thesis
    using r distinct_value_counts [of "map snd (status r)"]
    by (auto simp: evaluate_InrD(2) [OF r])
qed

theorem C7_counts_per_status_witness:
  "\<exists>r. evaluate [(''Temperature'', 20), (''Dissolved Oxygen'', 7), (''pH'', 7.2), (''Ammonia'', 0.2)]
      = Inr r \<and>
    map_of (status_counts r) Safe = Some 2 \<and> map_of (status_counts r) Low = Some 1 \<and>
    map_of (status_counts r) Unsafe = Some 1 \<and> map_of (status_counts r) High = None \<and>
    map_of (status_counts r) Risky = None"
proof -
  have c: "\<forall>(p, v) \<in> set [(''Temperature'', 20::real), (''Dissolved Oxygen'', 7), (''pH'', 7.2),
      (''Ammonia'', 0.2)]. safe_ranges p \<noteq> None"
    by (simp add: safe_ranges_lookup del: not_None_eq)
  have d: "distinct (map fst [(''Temperature'', 20::real), (''Dissolved Oxygen'', 7), (''pH'', 7.2),
      (''Ammonia'', 0.2)])"
    by simp
  from C7_counts_per_status [OF c d] obtain r
    where r: "evaluate [(''Temperature'', 20), (''Dissolved Oxygen'', 7), (''pH'', 7.2),
        (''Ammonia'', 0.2)] = Inr r"
      and a: "\<And>s. map_of (status_counts r) s =
        (let n = length (filter (\<lambda>(p, v). check_status p v = Inr s)
           [(''Temperature'', 20), (''Dissolved Oxygen'', 7), (''pH'', 7.2), (''Ammonia'', 0.2)])
         in if n = 0 then None else Some n)"
    by blast
  have nSafe: "length (filter (\<lambda>(p, v). check_status p v = Inr Safe)
      [(''Temperature'', 20), (''Dissolved Oxygen'', 7), (''pH'', 7.2), (''Ammonia'', 0.2)]) = 2"
    by code_simp
  have nLow: "length (filter (\<lambda>(p, v). check_status p v = Inr Low)
      [(''Temperature'', 20), (''Dissolved Oxygen'', 7), (''pH'', 7.2), (''Ammonia'', 0.2)]) = 1"
    by code_simp
  have nUnsafe: "length (filter (\<lambda>(p, v). check_status p v = Inr Unsafe)
      [(''Temperature'', 20), (''Dissolved Oxygen'', 7), (''pH'', 7.2), (''Ammonia'', 0.2)]) = 1"
    by code_simp
  have nHigh: "length (filter (\<lambda>(p, v). check_status p v = Inr High)
      [(''Temperature'', 20), (''Dissolved Oxygen'', 7), (''pH'', 7.2), (''Ammonia'', 0.2)]) = 0"
    by code_simp
  have nRisky: "length (filter (\<lambda>(p, v). check_status p v = Inr Risky)
      [(''Temperature'', 20), (''Dissolved Oxygen'', 7), (''pH'', 7.2), (''Ammonia'', 0.2)]) = 0"
    by code_simp
  have "map_of (status_counts r) Safe = Some 2" unfolding a nSafe by simp
  moreover have "map_of (status_counts r) Low = Some 1" unfolding a nLow by simp
  moreover have "map_of (status_counts r) Unsafe = Some 1" unfolding a nUnsafe by simp
  moreover have "map_of (status_counts r) High = None" unfolding a nHigh by simp
  moreover have "map_of (status_counts r) Risky = None" unfolding a nRisky by simp
  ultimately show ?thesis using r by blast
qed

text \<open>
  C10. The evaluation of the empty reading succeeds: the status dict is empty, the table
  of counts is empty and the verdict is true.
\<close>

theorem C10_empty_reading:
  "evaluate [] = Inr \<lparr>status = [], status_counts = [], verdict = True\<rparr>"
  by (simp add: evaluate_def value_counts_def)

end
